theory Spec2Isabelle
  imports Main "HOL-Library.Sublist"
begin

section \<open>Named-data storage (rec/dtn/storage.py)\<close>

text \<open>
  Python \<open>bytes\<close> are lists of 8-bit characters, names are strings. The TinyDB index is
  the list of its rows in insertion order, a row \<open>{"name": n, "filename": f}\<close> being the
  pair \<open>(n, f)\<close>. The blob directory maps a file name to the content of that file.
  The digest \<open>sha1(data).hexdigest()\<close> comes from \<open>hashlib\<close>; every operation that needs
  it takes it as the parameter \<open>sha1\<close>. File-system calls are taken to succeed, so the
  only errors are the ones the source raises itself.
\<close>

type_synonym bytes = "char list"

type_synonym row = "string \<times> string"

datatype storage_error = NameTakenError string | NoSuchNameError string

record storage =
  db :: "row list"
  blob_directory :: "string \<rightharpoonup> bytes"

text \<open>\<open>Storage.__init__\<close> on a fresh root: an empty index and an empty blob directory.\<close>

definition storage_init :: storage where
  "storage_init = \<lparr>db = [], blob_directory = Map.empty\<rparr>"

text \<open>\<open>self._db.search(db_data.name == name)\<close>\<close>

definition search_name :: "storage \<Rightarrow> string \<Rightarrow> row list" where
  "search_name s name = filter (\<lambda>r. fst r = name) (db s)"

text \<open>
  The two writes of \<open>store_data\<close>, in the order the source performs them. A step list
  keeps that order visible; \<open>store_data\<close> runs the list.
\<close>

datatype effect = WriteBlob string bytes | InsertRow string string

fun apply_effect :: "storage \<Rightarrow> effect \<Rightarrow> storage" where
  "apply_effect s (WriteBlob filename d) = s\<lparr>blob_directory := (blob_directory s)(filename \<mapsto> d)\<rparr>"
| "apply_effect s (InsertRow name filename) = s\<lparr>db := db s @ [(name, filename)]\<rparr>"

definition store_data_steps ::
  "(bytes \<Rightarrow> string) \<Rightarrow> storage \<Rightarrow> string \<Rightarrow> bytes \<Rightarrow> storage_error + effect list" where
  "store_data_steps sha1 s name d =
     (let test = search_name s name in
      if test \<noteq> [] then Inl (NameTakenError name)
      else
        let filename = sha1 d in
        if blob_directory s filename \<noteq> None
        then Inr [InsertRow name filename]
        else Inr [WriteBlob filename d, InsertRow name filename])"

definition store_data ::
  "(bytes \<Rightarrow> string) \<Rightarrow> storage \<Rightarrow> string \<Rightarrow> bytes \<Rightarrow> (storage_error + unit) \<times> storage" where
  "store_data sha1 s name d =
     (case store_data_steps sha1 s name d of
        Inl e \<Rightarrow> (Inl e, s)
      | Inr steps \<Rightarrow> (Inr (), foldl apply_effect s steps))"

text \<open>
  \<open>_cleanup(names)\<close>: for each element of the list, remove the rows whose \<open>name\<close> field
  equals it.
\<close>

definition db_remove_name :: "storage \<Rightarrow> string \<Rightarrow> storage" where
  "db_remove_name s name = s\<lparr>db := filter (\<lambda>r. fst r \<noteq> name) (db s)\<rparr>"

definition cleanup :: "storage \<Rightarrow> string list \<Rightarrow> storage" where
  "cleanup s names = foldl db_remove_name s names"

text \<open>
  The loop of \<open>load_data\<close> over the matched rows: a readable blob is appended to
  \<open>all_data\<close> under the row's name, a missing one puts the row's \<open>filename\<close> on
  \<open>disappeared\<close>.
\<close>

fun read_entries ::
  "(string \<rightharpoonup> bytes) \<Rightarrow> row list \<Rightarrow> (string \<times> bytes) list \<Rightarrow> string list
     \<Rightarrow> (string \<times> bytes) list \<times> string list" where
  "read_entries blobs [] all_data disappeared = (all_data, disappeared)"
| "read_entries blobs (entry # entries) all_data disappeared =
     (case blobs (snd entry) of
        Some d \<Rightarrow> read_entries blobs entries (all_data @ [(fst entry, d)]) disappeared
      | None \<Rightarrow> read_entries blobs entries all_data (disappeared @ [snd entry]))"

definition load_data :: "storage \<Rightarrow> string \<Rightarrow> (string \<times> bytes) list \<times> storage" where
  "load_data s name =
     (let entries = filter (\<lambda>r. prefix name (fst r)) (db s);
          (all_data, disappeared) = read_entries (blob_directory s) entries [] []
      in (all_data, if disappeared \<noteq> [] then cleanup s disappeared else s))"

definition find_missing :: "storage \<Rightarrow> string set \<Rightarrow> string set" where
  "find_missing s names =
     (if names = {} then {} else {name \<in> names. search_name s name = []})"

text \<open>
  \<open>copy_to_file\<close>: \<open>Inr (Some d)\<close> when the bytes \<open>d\<close> were copied to the destination.
  \<open>if missing_filename:\<close> is Python truthiness, false for \<open>None\<close> and for the empty
  string; in the latter case the call returns without copying, \<open>Inr None\<close>.
\<close>

definition copy_to_file :: "storage \<Rightarrow> string \<Rightarrow> (storage_error + bytes option) \<times> storage" where
  "copy_to_file s name =
     (case search_name s name of
        [] \<Rightarrow> (Inl (NoSuchNameError name), s)
      | entry # _ \<Rightarrow>
          (let filename = snd entry in
           case blob_directory s filename of
             Some d \<Rightarrow> (Inr (Some d), s)
           | None \<Rightarrow>
               if filename \<noteq> []
               then (Inl (NoSuchNameError name), cleanup s [filename])
               else (Inr None, s)))"

definition stored_names :: "storage \<Rightarrow> string set" where
  "stored_names s = fst ` set (db s)"

text \<open>
  A stand-in for the digest, used only where the model is evaluated at concrete inputs.
\<close>

definition toy_digest :: "bytes \<Rightarrow> string" where
  "toy_digest d = CHR ''h'' # d"

text \<open>A digest with one collision: the byte strings \<open>9\<close> and \<open>1\<close> get the same name.\<close>

definition demo_digest :: "bytes \<Rightarrow> string" where
  "demo_digest d = (if d = ''9'' then toy_digest ''1'' else toy_digest d)"

text \<open>
  A sequence of \<open>store_data\<close> calls, one after the other; a call that raises leaves the
  storage as it was and the sequence goes on (as separate requests would).
\<close>

fun store_calls :: "(bytes \<Rightarrow> string) \<Rightarrow> storage \<Rightarrow> (string \<times> bytes) list \<Rightarrow> storage" where
  "store_calls sha1 s [] = s"
| "store_calls sha1 s (c # calls) = store_calls sha1 (snd (store_data sha1 s (fst c) (snd c))) calls"

text \<open>The calls of such a sequence that return without raising, given the names taken before.\<close>

fun accepted :: "string set \<Rightarrow> (string \<times> bytes) list \<Rightarrow> (string \<times> bytes) list" where
  "accepted taken [] = []"
| "accepted taken (c # calls) =
     (if fst c \<in> taken then accepted taken calls
      else c # accepted (insert (fst c) taken) calls)"

text \<open>
  The storage that a sequence of accepted calls \<open>ents\<close> leaves behind: one index row per
  entry, in order, each with its blob file holding the entry's bytes, and no other blob
  file.
\<close>

definition holds :: "(bytes \<Rightarrow> string) \<Rightarrow> storage \<Rightarrow> (string \<times> bytes) list \<Rightarrow> bool" where
  "holds sha1 s ents \<longleftrightarrow>
     db s = map (\<lambda>c. (fst c, sha1 (snd c))) ents
     \<and> (\<forall>c \<in> set ents. blob_directory s (sha1 (snd c)) = Some (snd c))
     \<and> dom (blob_directory s) \<subseteq> sha1 ` snd ` set ents"

section \<open>Bundles and messages (rec/dtn/messages.py)\<close>

text \<open>\<open>EID\<close> is a subclass of \<open>str\<close>: endpoint identifiers compare as strings.\<close>

datatype eid = EID string

datatype bundle_type =
    BROKER_ANNOUNCE | BROKER_REQUEST | BROKER_ACK
  | JOB_SUBMIT | JOB_RESULT | JOB_QUERY | JOB_LIST
  | NDATA_PUT | NDATA_GET | NDATA_DEL

fun bundle_type_value :: "bundle_type \<Rightarrow> int" where
  "bundle_type_value BROKER_ANNOUNCE = 1"
| "bundle_type_value BROKER_REQUEST = 2"
| "bundle_type_value BROKER_ACK = 3"
| "bundle_type_value JOB_SUBMIT = 11"
| "bundle_type_value JOB_RESULT = 12"
| "bundle_type_value JOB_QUERY = 13"
| "bundle_type_value JOB_LIST = 14"
| "bundle_type_value NDATA_PUT = 21"
| "bundle_type_value NDATA_GET = 22"
| "bundle_type_value NDATA_DEL = 23"

text \<open>\<open>NodeType\<close> is an \<open>IntEnum\<close>; the field default of \<open>BundleData.node_type\<close> is the plain \<open>0\<close>.\<close>

definition BROKER :: int where "BROKER = 1"
definition EXECUTOR :: int where "EXECUTOR = 2"
definition DATASTORE :: int where "DATASTORE = 3"
definition CLIENT :: int where "CLIENT = 4"

text \<open>The field \<open>named_data: str | list[str] | None\<close>.\<close>

datatype named_data_t = ND_None | ND_Str string | ND_List "string list"

record bundle_data =
  type :: bundle_type
  source :: eid
  destination :: eid
  payload :: bytes
  success :: bool
  error :: string
  node_type :: int
  submitter :: "eid option"
  named_data :: named_data_t

definition DATASTORE_MULTICAST_ADDRESS :: eid where
  "DATASTORE_MULTICAST_ADDRESS = EID ''dtn://rec.store/~''"

subsection \<open>The instance dictionary of a bundle and \<open>dictify\<close>\<close>

text \<open>
  \<open>dictify\<close> works on \<open>self.__dict__\<close>, so the object is modelled by that dictionary: a map
  from attribute names to Python values. The dataclass constructor assigns all nine
  fields; \<open>__post_init__\<close> wraps source, destination and a given submitter as \<open>EID\<close>.
  Fields declared with a default are also class attributes, which attribute lookup falls
  back to when the instance dictionary has no such key.
\<close>

datatype pyval =
    PyInt int | PyBytes bytes | PyStr string | PyBool bool | PyEID eid | PyNone
  | PyList "string list"

datatype exception =
    Storage storage_error | ValueError string | TypeError | KeyError string
  | AttributeError string | IndexError

type_synonym pydict = "string \<rightharpoonup> pyval"

definition instance_dict :: "bundle_data \<Rightarrow> pydict" where
  "instance_dict b =
     [''type'' \<mapsto> PyInt (bundle_type_value (type b)),
      ''source'' \<mapsto> PyEID (source b),
      ''destination'' \<mapsto> PyEID (destination b),
      ''payload'' \<mapsto> PyBytes (payload b),
      ''success'' \<mapsto> PyBool (success b),
      ''error'' \<mapsto> PyStr (error b),
      ''node_type'' \<mapsto> PyInt (node_type b),
      ''submitter'' \<mapsto> (case submitter b of None \<Rightarrow> PyNone | Some e \<Rightarrow> PyEID e),
      ''named_data'' \<mapsto>
         (case named_data b of
            ND_None \<Rightarrow> PyNone | ND_Str n \<Rightarrow> PyStr n | ND_List ns \<Rightarrow> PyList ns)]"

definition class_attributes :: pydict where
  "class_attributes =
     [''payload'' \<mapsto> PyBytes [], ''success'' \<mapsto> PyBool True, ''error'' \<mapsto> PyStr [],
      ''node_type'' \<mapsto> PyInt 0, ''submitter'' \<mapsto> PyNone, ''named_data'' \<mapsto> PyNone]"

definition getattr :: "pydict \<Rightarrow> string \<Rightarrow> exception + pyval" where
  "getattr own_dict k =
     (case own_dict k of
        Some v \<Rightarrow> Inr v
      | None \<Rightarrow> (case class_attributes k of Some v \<Rightarrow> Inr v | None \<Rightarrow> Inl (AttributeError k)))"

text \<open>
  One step of \<open>dictify\<close>: \<open>if self.k == dflt: del own_dict[k]\<close>. \<open>del\<close> raises \<open>KeyError\<close>
  when the key is not in the dictionary.
\<close>

definition del_if_default :: "string \<Rightarrow> pyval \<Rightarrow> pydict \<Rightarrow> exception + pydict" where
  "del_if_default k dflt own_dict =
     (case getattr own_dict k of
        Inl e \<Rightarrow> Inl e
      | Inr v \<Rightarrow>
          if v = dflt
          then (if own_dict k = None then Inl (KeyError k) else Inr (own_dict(k := None)))
          else Inr own_dict)"

text \<open>
  \<open>BundleData.dictify\<close>. The first component is what the call returns or raises, the
  second is the instance dictionary of the object afterwards; the returned dictionary is
  that same dictionary (\<open>own_dict = self.__dict__\<close> is an alias, not a copy).
\<close>

definition dictify :: "pydict \<Rightarrow> (exception + pydict) \<times> pydict" where
  "dictify own_dict =
     (case del_if_default ''payload'' (PyBytes []) own_dict of
        Inl e \<Rightarrow> (Inl e, own_dict)
      | Inr d1 \<Rightarrow>
     (case del_if_default ''node_type'' (PyInt 0) d1 of
        Inl e \<Rightarrow> (Inl e, d1)
      | Inr d2 \<Rightarrow>
     (case del_if_default ''submitter'' PyNone d2 of
        Inl e \<Rightarrow> (Inl e, d2)
      | Inr d3 \<Rightarrow>
     (case del_if_default ''named_data'' PyNone d3 of
        Inl e \<Rightarrow> (Inl e, d3)
      | Inr d4 \<Rightarrow> (Inr d4, d4)))))"

text \<open>
  \<open>serialize\<close> of a \<open>BundleCreate\<close> message holding the bundle: \<open>BundleCreate.dictify\<close>
  calls the bundle's \<open>dictify\<close> and the message dictionary goes to msgpack's \<open>packb\<close>, a
  parameter here. The message dictionary is the pair of the message's \<open>type\<close> (\<open>CREATE = 5\<close>
  where the node sends a bundle) and the bundle's dictionary.
\<close>

definition serialize ::
  "(int \<times> pydict \<Rightarrow> bytes) \<Rightarrow> int \<Rightarrow> pydict \<Rightarrow> (exception + bytes) \<times> pydict" where
  "serialize packb message_type bundle_dict =
     (case dictify bundle_dict of
        (Inl e, d) \<Rightarrow> (Inl e, d)
      | (Inr own_dict, d) \<Rightarrow> (Inr (packb (message_type, own_dict)), d))"

text \<open>The optional fields of a bundle that hold their default value.\<close>

definition default_valued :: "bundle_data \<Rightarrow> string set" where
  "default_valued b =
     (if payload b = [] then {''payload''} else {})
     \<union> (if node_type b = 0 then {''node_type''} else {})
     \<union> (if submitter b = None then {''submitter''} else {})
     \<union> (if named_data b = ND_None then {''named_data''} else {})"

text \<open>The four fields that \<open>dictify\<close> tests.\<close>

definition optional_fields :: "string set" where
  "optional_fields = {''payload'', ''node_type'', ''submitter'', ''named_data''}"

section \<open>Discovery state machine (rec/dtn/node.py)\<close>

record node =
  node_id :: eid
  dtn_agent_socket :: string
  node_type :: int
  broker_pending :: "eid option"
  broker :: "eid option"

definition handle_discovery ::
  "'a node_scheme \<Rightarrow> bundle_data \<Rightarrow> 'a node_scheme \<times> bundle_data list" where
  "handle_discovery self bundle =
     (case type bundle of
        BROKER_ANNOUNCE \<Rightarrow>
          if broker_pending self = None \<and> broker self = None
          then (self\<lparr>broker_pending := Some (source bundle)\<rparr>,
                [\<lparr>type = BROKER_REQUEST, source = node_id self, destination = source bundle,
                  payload = [], success = True, error = [],
                  node_type = node.node_type self, submitter = None, named_data = ND_None\<rparr>])
          else (self, [])
      | BROKER_ACK \<Rightarrow>
          if broker_pending self = Some (source bundle)
          then (self\<lparr>broker := Some (source bundle), broker_pending := None\<rparr>, [])
          else (self, [])
      | _ \<Rightarrow> (self, []))"

text \<open>The node after a sequence of discovery bundles, handled in order.\<close>

fun run_discovery :: "'a node_scheme \<Rightarrow> bundle_data list \<Rightarrow> 'a node_scheme" where
  "run_discovery self [] = self"
| "run_discovery self (b # bs) = run_discovery (fst (handle_discovery self b)) bs"

text \<open>
  In a node built by \<open>Node.__init__\<close> both slots are empty; every assignment of
  \<open>_handle_discovery\<close> keeps at most one of them set.
\<close>

definition assoc_inv :: "'a node_scheme \<Rightarrow> bool" where
  "assoc_inv n \<longleftrightarrow> (broker n = None \<or> broker_pending n = None)"

text \<open>An executor node before discovery, and a bundle of a given type and source.\<close>

definition demo_node :: node where
  "demo_node = \<lparr>node_id = EID ''dtn://exec1/'', dtn_agent_socket = ''/tmp/dtnd.sock'',
                node_type = EXECUTOR, broker_pending = None, broker = None\<rparr>"

definition demo_bundle :: "bundle_type \<Rightarrow> string \<Rightarrow> bundle_data" where
  "demo_bundle t src = \<lparr>type = t, source = EID src, destination = EID ''dtn://rec.all/~'',
     payload = [], success = True, error = [], node_type = 0, submitter = None,
     named_data = ND_None\<rparr>"

section \<open>Jobs (rec/dtn/job.py)\<close>

record capabilities =
  cpu_cores :: int
  free_cpu_capacity :: int
  free_memory :: int
  free_disk_space :: int

definition is_capable_of :: "capabilities \<Rightarrow> capabilities \<Rightarrow> bool" where
  "is_capable_of self caps \<longleftrightarrow>
     cpu_cores self \<ge> cpu_cores caps
     \<and> free_cpu_capacity self \<ge> free_cpu_capacity caps
     \<and> free_memory self \<ge> free_memory caps
     \<and> free_disk_space self \<ge> free_disk_space caps"

text \<open>
  \<open>JobInfo\<close>. Python dictionaries keep insertion order and are read here only through
  \<open>items()\<close> and \<open>values()\<close>, so they are lists of key-value pairs.
\<close>

record job_info =
  wasm_module :: string
  capabilities :: capabilities
  argv :: "string list"
  env :: "(string \<times> string) list"
  stdin_file :: "string option"
  dirs :: "string list"
  data :: "(string \<times> string) list"
  stdout_file :: "string option"
  stderr_file :: "string option"
  results :: "string list"
  named_results :: "(string \<times> string) list"
  results_receiver :: "eid option"


definition required_named_data :: "job_info \<Rightarrow> string set" where
  "required_named_data self =
     set ([wasm_module self]
          @ (case stdin_file self of None \<Rightarrow> [] | Some f \<Rightarrow> if f \<noteq> [] then [f] else [])
          @ map snd (job_info.data self))"

record job =
  metadata :: job_info
  data :: "(string \<times> bytes) list"

section \<open>Executor: intake and scheduler (rec/dtn/executor.py)\<close>

text \<open>
  The executor is a node with a storage and the deque of pending jobs. The condition
  variable \<open>_job_ready_cv\<close> is the count of its \<open>notify_all\<close> calls.
\<close>

record executor = node +
  storage :: storage
  pending_jobs :: "job_info list"
  job_ready_cv :: nat

text \<open>A loop of \<open>store_data\<close> calls: the first one that raises ends the loop.\<close>

fun store_each ::
  "(bytes \<Rightarrow> string) \<Rightarrow> storage \<Rightarrow> (string \<times> bytes) list \<Rightarrow> (storage_error + unit) \<times> storage" where
  "store_each sha1 s [] = (Inr (), s)"
| "store_each sha1 s (item # items) =
     (case store_data sha1 s (fst item) (snd item) of
        (Inl e, s') \<Rightarrow> (Inl e, s')
      | (Inr u, s') \<Rightarrow> store_each sha1 s' items)"

text \<open>
  What \<open>msgpack.unpackb(bundle.payload)\<close> gives. It raises on a malformed payload. Called
  as in \<open>_handle_job\<close>, without an \<open>object_hook\<close>, msgpack builds only built-in values and,
  for an extension type, the named tuple \<open>ExtType(code, data)\<close>; the annotation \<open>job: Job\<close> is
  not checked at run time. \<open>Builtin\<close> stands for a value that has no attribute \<open>data\<close>;
  \<open>JobObject\<close> is an object with the attributes \<open>data\<close> and \<open>metadata\<close> of a \<open>Job\<close>, which
  is what the rest of \<open>_handle_job\<close> is written for.
\<close>

datatype unpacked = Builtin | ExtType int bytes | JobObject job

text \<open>
  \<open>_handle_job\<close>. \<open>unpackb\<close> and the order in which \<open>list(missing)\<close> lists a set are
  parameters. \<open>job.data.items()\<close> raises \<open>AttributeError\<close> on a value without \<open>data\<close>, and on
  an \<open>ExtType\<close>, whose \<open>data\<close> is a bytes object without \<open>items\<close>; both happen before
  anything is stored or appended.
\<close>

definition handle_job ::
  "(bytes \<Rightarrow> string) \<Rightarrow> (bytes \<Rightarrow> exception + unpacked) \<Rightarrow> (string set \<Rightarrow> string list)
     \<Rightarrow> executor \<Rightarrow> bundle_data \<Rightarrow> (exception + bundle_data list) \<times> executor" where
  "handle_job sha1 unpackb to_list self bundle =
     (case unpackb (payload bundle) of
        Inl e \<Rightarrow> (Inl e, self)
      | Inr Builtin \<Rightarrow> (Inl (AttributeError ''data''), self)
      | Inr (ExtType code d) \<Rightarrow> (Inl (AttributeError ''items''), self)
      | Inr (JobObject job) \<Rightarrow>
     (case store_each sha1 (storage self) (job.data job) of
        (Inl e, st) \<Rightarrow> (Inl (Storage e), self\<lparr>storage := st\<rparr>)
      | (Inr u, st) \<Rightarrow>
          (let missing = find_missing st (required_named_data (metadata job));
               self' = self\<lparr>storage := st,
                            pending_jobs := pending_jobs self @ [metadata job],
                            job_ready_cv := job_ready_cv self + 1\<rparr>
           in (Inr (if missing \<noteq> {}
                    then [\<lparr>type = NDATA_GET, source = node_id self,
                            destination = DATASTORE_MULTICAST_ADDRESS,
                            payload = [], success = True, error = [],
                            node_type = 0, submitter = None,
                            named_data = ND_List (to_list missing)\<rparr>]
                    else []),
               self'))))"

text \<open>
  \<open>_handle_data\<close>. Iterating over \<open>None\<close> raises \<open>TypeError\<close>. \<open>notify_all\<close> comes after
  the loop, so it is reached only when no \<open>store_data\<close> call raised.
\<close>

definition handle_data ::
  "(bytes \<Rightarrow> string) \<Rightarrow> executor \<Rightarrow> bundle_data \<Rightarrow> (exception + unit) \<times> executor" where
  "handle_data sha1 self bundle =
     (case named_data bundle of
        ND_None \<Rightarrow> (Inl TypeError, self)
      | ND_Str n \<Rightarrow>
          (case store_each sha1 (storage self) [(n, payload bundle)] of
             (Inl e, st) \<Rightarrow> (Inl (Storage e), self\<lparr>storage := st\<rparr>)
           | (Inr u, st) \<Rightarrow>
               (Inr (), self\<lparr>storage := st, job_ready_cv := job_ready_cv self + 1\<rparr>))
      | ND_List ns \<Rightarrow>
          (case store_each sha1 (storage self) (map (\<lambda>n. (n, payload bundle)) ns) of
             (Inl e, st) \<Rightarrow> (Inl (Storage e), self\<lparr>storage := st\<rparr>)
           | (Inr u, st) \<Rightarrow>
               (Inr (), self\<lparr>storage := st, job_ready_cv := job_ready_cv self + 1\<rparr>)))"

text \<open>
  \<open>_handle_bundle\<close>, up to the bundles it hands to the agent: the three tests on the
  bundle type exclude each other. Nothing in it catches an exception of a handler.
\<close>

definition handle_bundle ::
  "(bytes \<Rightarrow> string) \<Rightarrow> (bytes \<Rightarrow> exception + unpacked) \<Rightarrow> (string set \<Rightarrow> string list)
     \<Rightarrow> executor \<Rightarrow> bundle_data \<Rightarrow> (exception + bundle_data list) \<times> executor" where
  "handle_bundle sha1 unpackb to_list self bundle =
     (if bundle_type_value BROKER_ANNOUNCE \<le> bundle_type_value (type bundle)
         \<and> bundle_type_value (type bundle) \<le> bundle_type_value BROKER_ACK
      then (case handle_discovery self bundle of (self', to_send) \<Rightarrow> (Inr to_send, self'))
      else if type bundle = JOB_SUBMIT
      then handle_job sha1 unpackb to_list self bundle
      else if type bundle = NDATA_GET
      then (case handle_data sha1 self bundle of
              (Inl e, self') \<Rightarrow> (Inl e, self')
            | (Inr u, self') \<Rightarrow> (Inr [], self'))
      else (Inr [], self))"

text \<open>
  The loop of \<open>_handle_bundles\<close> over one batch of fetched bundles. The loop is inside the
  \<open>try\<close> whose \<open>except Exception\<close> logs the error, so an exception of \<open>_handle_bundle\<close> ends
  the batch: the bundles after it are not handled. The first component is the exception
  logged, if any.
\<close>

fun handle_bundles ::
  "(bytes \<Rightarrow> string) \<Rightarrow> (bytes \<Rightarrow> exception + unpacked) \<Rightarrow> (string set \<Rightarrow> string list)
     \<Rightarrow> executor \<Rightarrow> bundle_data list \<Rightarrow> exception option \<times> executor" where
  "handle_bundles sha1 unpackb to_list self [] = (None, self)"
| "handle_bundles sha1 unpackb to_list self (bundle # bundles) =
     (case handle_bundle sha1 unpackb to_list self bundle of
        (Inl e, self') \<Rightarrow> (Some e, self')
      | (Inr to_send, self') \<Rightarrow> handle_bundles sha1 unpackb to_list self' bundles)"

text \<open>
  Runnability of a job, given a storage and a sample of \<open>Capabilities.from_system()\<close>.
\<close>

definition job_has_all_inputs :: "storage \<Rightarrow> job_info \<Rightarrow> bool" where
  "job_has_all_inputs s job \<longleftrightarrow> find_missing s (required_named_data job) = {}"

definition system_can_run :: "capabilities \<Rightarrow> job_info \<Rightarrow> bool" where
  "system_can_run sys job \<longleftrightarrow> is_capable_of sys (capabilities job)"

definition runnable :: "storage \<Rightarrow> capabilities \<Rightarrow> job_info \<Rightarrow> bool" where
  "runnable s sys job \<longleftrightarrow> job_has_all_inputs s job \<and> system_can_run sys job"

text \<open>
  The scheduler tests one job after the other, and every test awaits \<open>find_missing\<close> and
  calls \<open>Capabilities.from_system()\<close> anew: the bundle handler can store data between two
  tests (it does not take \<open>_state_mutex\<close> for that), and the load of the machine changes.
  So the tests of one loop do not see one storage and one sample: \<open>st i\<close> is the storage as
  the test number \<open>i\<close> of the loop finds it, \<open>sys i\<close> the sample that test takes. The loops
  themselves write only the deque.
\<close>

definition has_runnable_job ::
  "(nat \<Rightarrow> storage) \<Rightarrow> (nat \<Rightarrow> capabilities) \<Rightarrow> executor \<Rightarrow> bool" where
  "has_runnable_job st sys self =
     list_ex (\<lambda>(i, job). runnable (st i) (sys i) job) (enumerate 0 (pending_jobs self))"



section \<open>Executor: sandbox paths, preparation and collection\<close>



























text \<open>
  An executor with an empty storage and an empty deque, as \<open>Executor.__init__\<close> on a fresh
  root directory leaves it.
\<close>

definition demo_executor :: executor where
  "demo_executor = node.extend demo_node (executor.fields storage_init [] 0)"

text \<open>A bundle that delivers named data to the executor.\<close>

definition deliver :: "string \<Rightarrow> bytes \<Rightarrow> bundle_data" where
  "deliver n d = (demo_bundle NDATA_GET ''dtn://store/'')\<lparr>payload := d, named_data := ND_Str n\<rparr>"














section \<open>Storage: missing-set computation\<close>

lemma search_name_empty_iff: "search_name s name = [] \<longleftrightarrow> name \<notin> stored_names s"
  by (auto simp: search_name_def stored_names_def filter_empty_conv)

text \<open>
  C9. \<open>find_missing R\<close> is the set difference of \<open>R\<close> and the names of the index, the empty
  query gives the empty set, and the answer does not depend on the blob directory: a name
  whose index row remains is not reported, whether its blob file exists or not.
\<close>

theorem find_missing_set_difference:
  "find_missing s R = R - stored_names s
   \<and> find_missing s {} = {}
   \<and> find_missing (s\<lparr>blob_directory := blobs\<rparr>) R = R - stored_names s"
  by (auto simp: find_missing_def search_name_empty_iff)
     (auto simp: stored_names_def search_name_def filter_empty_conv)

section \<open>Storage: name uniqueness and order of the writes\<close>






section \<open>Storage: cleanup of rows whose blob is missing\<close>

lemma cleanup_db: "db (cleanup s names) = filter (\<lambda>r. fst r \<notin> set names) (db s)"
  unfolding cleanup_def
  by (induction names arbitrary: s) (auto simp: db_remove_name_def intro: filter_cong)

lemma cleanup_blobs: "blob_directory (cleanup s names) = blob_directory s"
  unfolding cleanup_def
  by (induction names arbitrary: s) (auto simp: db_remove_name_def)

lemma read_entries_acc:
  "read_entries blobs es acc dis =
     (acc @ fst (read_entries blobs es [] []), dis @ snd (read_entries blobs es [] []))"
proof (induction es arbitrary: acc dis)
  case Nil
  show ?case by simp
next
  case (Cons e es)
  show ?case
  proof (cases "blobs (snd e)")
    case None
    then show ?thesis
      using Cons.IH [of acc "dis @ [snd e]"] Cons.IH [of "[]" "[snd e]"] by simp
  next
    case (Some d)
    then show ?thesis
      using Cons.IH [of "acc @ [(fst e, d)]" dis] Cons.IH [of "[(fst e, d)]" "[]"] by simp
  qed
qed

lemma read_entries_disappeared:
  "snd (read_entries blobs es [] []) = map snd (filter (\<lambda>r. blobs (snd r) = None) es)"
proof (induction es)
  case Nil
  show ?case by simp
next
  case (Cons e es)
  show ?case
    using Cons read_entries_acc [of blobs es "[]" "[snd e]"]
      read_entries_acc [of blobs es "[(fst e, the (blobs (snd e)))]" "[]"]
    by (cases "blobs (snd e)") auto
qed

lemma load_data_db:
  "db (snd (load_data s p)) =
     filter (\<lambda>r. fst r \<notin> snd ` {e \<in> set (db s). prefix p (fst e) \<and> blob_directory s (snd e) = None})
       (db s)"
proof -
  obtain a d where rd: "read_entries (blob_directory s) (filter (\<lambda>r. prefix p (fst r)) (db s)) [] [] = (a, d)"
    by fastforce
  have d: "d = map snd (filter (\<lambda>r. blob_directory s (snd r) = None) (filter (\<lambda>r. prefix p (fst r)) (db s)))"
    using read_entries_disappeared [of "blob_directory s" "filter (\<lambda>r. prefix p (fst r)) (db s)"] rd
    by simp
  have sd: "set d = snd ` {e \<in> set (db s). prefix p (fst e) \<and> blob_directory s (snd e) = None}"
    unfolding d by auto
  have "db (snd (load_data s p)) = filter (\<lambda>r. fst r \<notin> set d) (db s)"
  proof (cases "d = []")
    case True
    with rd show ?thesis by (simp add: load_data_def)
  next
    case False
    with rd show ?thesis by (simp add: load_data_def cleanup_db)
  qed
  then show ?thesis unfolding sd .
qed

text \<open>
  C1, evaluated where it fails. The index has the row \<open>(a, h1)\<close> and the blob file \<open>h1\<close> is
  gone. \<open>load_data a\<close> returns nothing and leaves the row in the index; \<open>copy_to_file a\<close>
  raises \<open>NoSuchNameError\<close> and leaves the row too. \<open>_cleanup\<close> is handed the file names of
  the missing blobs and removes the rows whose \<open>name\<close> equals one of them (lemma
  \<open>load_data_db\<close>), so in the third store it removes the intact row named \<open>h1\<close> instead of
  the stale row \<open>(a, h1)\<close>.
\<close>

theorem stale_row_survives:
  "load_data \<lparr>db = [(''a'', ''h1'')], blob_directory = Map.empty\<rparr> ''a''
     = ([], \<lparr>db = [(''a'', ''h1'')], blob_directory = Map.empty\<rparr>)
   \<and> copy_to_file \<lparr>db = [(''a'', ''h1'')], blob_directory = Map.empty\<rparr> ''a''
     = (Inl (NoSuchNameError ''a''), \<lparr>db = [(''a'', ''h1'')], blob_directory = Map.empty\<rparr>)
   \<and> db (snd (load_data \<lparr>db = [(''a'', ''h1''), (''h1'', ''h2'')], blob_directory = [''h2'' \<mapsto> ''x'']\<rparr> ''a''))
     = [(''a'', ''h1'')]"
  by (simp add: load_data_def copy_to_file_def search_name_def cleanup_def db_remove_name_def)

section \<open>Storage: round trip and prefix search\<close>

lemma holds_init: "holds sha1 storage_init []"
  by (simp add: holds_def storage_init_def)

lemma holds_names: "holds sha1 s ents \<Longrightarrow> stored_names s = fst ` set ents"
  by (force simp: holds_def stored_names_def)

lemma holds_store_taken:
  assumes "holds sha1 s ents" "n \<in> fst ` set ents"
  shows "store_data sha1 s n B = (Inl (NameTakenError n), s)"
  using assms holds_names [OF assms(1)]
  by (simp add: store_data_def store_data_steps_def search_name_empty_iff)

lemma holds_store_fresh:
  assumes h: "holds sha1 s ents" and fresh: "n \<notin> fst ` set ents"
    and inj: "inj_on sha1 (insert B (snd ` set ents))"
  shows "fst (store_data sha1 s n B) = Inr ()
         \<and> holds sha1 (snd (store_data sha1 s n B)) (ents @ [(n, B)])"
proof (cases "blob_directory s (sha1 B)")
  case None
  with fresh holds_names [OF h]
  have st: "store_data sha1 s n B =
      (Inr (), s\<lparr>blob_directory := (blob_directory s)(sha1 B \<mapsto> B), db := db s @ [(n, sha1 B)]\<rparr>)"
    by (simp add: store_data_def store_data_steps_def search_name_empty_iff Let_def)
  have "\<forall>c \<in> set ents. sha1 (snd c) \<noteq> sha1 B"
    using h None by (auto simp: holds_def)
  with h show ?thesis
    unfolding st holds_def by auto
next
  case (Some d)
  then have "sha1 B \<in> sha1 ` snd ` set ents"
    using h by (auto simp: holds_def)
  then obtain c where c: "c \<in> set ents" "sha1 (snd c) = sha1 B"
    by auto
  with inj have "snd c = B"
    using inj_onD [OF inj, of "snd c" B] by auto
  with c h have blob: "blob_directory s (sha1 B) = Some B"
    by (auto simp: holds_def)
  with fresh holds_names [OF h]
  have st: "store_data sha1 s n B = (Inr (), s\<lparr>db := db s @ [(n, sha1 B)]\<rparr>)"
    by (simp add: store_data_def store_data_steps_def search_name_empty_iff Let_def)
  from h blob show ?thesis
    unfolding st holds_def by auto
qed

lemma holds_store_calls:
  "holds sha1 s ents \<Longrightarrow> inj_on sha1 (snd ` set (ents @ accepted (fst ` set ents) calls))
   \<Longrightarrow> holds sha1 (store_calls sha1 s calls) (ents @ accepted (fst ` set ents) calls)"
proof (induction calls arbitrary: s ents)
  case Nil
  then show ?case by simp
next
  case (Cons c calls)
  show ?case
  proof (cases "fst c \<in> fst ` set ents")
    case True
    from Cons.prems(2) True
    have "inj_on sha1 (snd ` set (ents @ accepted (fst ` set ents) calls))"
      by simp
    with Cons.IH [OF Cons.prems(1)] True holds_store_taken [OF Cons.prems(1) True, of "snd c"]
    show ?thesis by simp
  next
    case False
    have names: "fst ` set (ents @ [c]) = insert (fst c) (fst ` set ents)"
      by auto
    have i1: "inj_on sha1 (insert (snd c) (snd ` set ents))"
      using Cons.prems(2) False by (auto intro: inj_on_subset)
    have i2: "inj_on sha1 (snd ` set ((ents @ [c]) @ accepted (fst ` set (ents @ [c])) calls))"
      using Cons.prems(2) False unfolding names by simp
    from holds_store_fresh [OF Cons.prems(1) False i1]
    have h': "holds sha1 (snd (store_data sha1 s (fst c) (snd c))) (ents @ [c])"
      by simp
    from Cons.IH [OF h' i2] False show ?thesis
      unfolding names by simp
  qed
qed

lemma read_entries_present:
  "\<forall>c \<in> set es. blobs (sha1 (snd c)) = Some (snd c)
   \<Longrightarrow> read_entries blobs (map (\<lambda>c. (fst c, sha1 (snd c))) es) acc dis = (acc @ es, dis)"
  by (induction es arbitrary: acc) auto

lemma holds_load_data:
  assumes "holds sha1 s ents"
  shows "load_data s p = (filter (\<lambda>c. prefix p (fst c)) ents, s)"
proof -
  have f: "filter (\<lambda>r. prefix p (fst r)) (db s)
        = map (\<lambda>c. (fst c, sha1 (snd c))) (filter (\<lambda>c. prefix p (fst c)) ents)"
    using assms by (simp add: holds_def filter_map comp_def)
  have "\<forall>c \<in> set (filter (\<lambda>c. prefix p (fst c)) ents).
          blob_directory s (sha1 (snd c)) = Some (snd c)"
    using assms by (simp add: holds_def)
  then have "read_entries (blob_directory s)
          (map (\<lambda>c. (fst c, sha1 (snd c))) (filter (\<lambda>c. prefix p (fst c)) ents)) [] []
        = ([] @ filter (\<lambda>c. prefix p (fst c)) ents, [])"
    by (rule read_entries_present)
  with f show ?thesis by (simp add: load_data_def)
qed

lemma accepted_append:
  "accepted taken (xs @ ys) = accepted taken xs @ accepted (taken \<union> fst ` set xs) ys"
  by (induction xs arbitrary: taken) (auto simp: insert_absorb)

lemma accepted_names: "fst ` set (accepted taken cs) = fst ` set cs - taken"
proof (induction cs arbitrary: taken)
  case Nil
  show ?case by simp
next
  case (Cons c cs)
  show ?case
  proof (cases "fst c \<in> taken")
    case True
    with Cons [of taken] show ?thesis by auto
  next
    case False
    with Cons [of "insert (fst c) taken"] show ?thesis by auto
  qed
qed

text \<open>
  C8, as amended. Start from an empty storage and make any sequence of \<open>store_data\<close>
  calls, nothing else touching the index or the blob files, and let no two byte strings
  that were stored (the data of the calls that returned without raising) have the same
  digest. If the call \<open>store_data n B\<close> in that sequence returns without raising, then
  after the whole sequence \<open>load_data p\<close> contains \<open>(n, B)\<close> for every prefix \<open>p\<close> of \<open>n\<close>,
  and for every query \<open>p\<close> it returns exactly the stored entries whose name starts with
  \<open>p\<close>, in insertion order, and leaves the storage unchanged.
\<close>

theorem load_data_roundtrip_prefix:
  assumes inj: "inj_on sha1 (snd ` set (accepted {} (calls @ (n, B) # later)))"
    and ok: "fst (store_data sha1 (store_calls sha1 storage_init calls) n B) = Inr ()"
  shows "(\<forall>p. prefix p n \<longrightarrow>
            (n, B) \<in> set (fst (load_data (store_calls sha1 storage_init (calls @ (n, B) # later)) p)))
       \<and> (\<forall>p. load_data (store_calls sha1 storage_init (calls @ (n, B) # later)) p =
            (filter (\<lambda>c. prefix p (fst c)) (accepted {} (calls @ (n, B) # later)),
             store_calls sha1 storage_init (calls @ (n, B) # later)))"
proof -
  let ?all = "calls @ (n, B) # later"
  have h: "holds sha1 (store_calls sha1 storage_init ?all) (accepted {} ?all)"
    using holds_store_calls [OF holds_init, of sha1 ?all] inj by simp
  have "snd ` set (accepted {} calls) \<subseteq> snd ` set (accepted {} ?all)"
    by (auto simp: accepted_append)
  with inj have i1: "inj_on sha1 (snd ` set (accepted {} calls))"
    by (rule inj_on_subset)
  have h1: "holds sha1 (store_calls sha1 storage_init calls) (accepted {} calls)"
    using holds_store_calls [OF holds_init, of sha1 calls] i1 by simp
  have fresh: "n \<notin> fst ` set (accepted {} calls)"
  proof
    assume "n \<in> fst ` set (accepted {} calls)"
    from holds_store_taken [OF h1 this, of B] ok show False by simp
  qed
  from fresh accepted_names [of "{}" calls] have "n \<notin> fst ` set calls" by simp
  then have "(n, B) \<in> set (accepted {} ?all)"
    by (simp add: accepted_append)
  with holds_load_data [OF h] show ?thesis by simp
qed

text \<open>
  An instance: the second call is rejected (its name is taken) and its data collides with
  stored data, which the condition on the stored byte strings allows.
\<close>

theorem load_data_roundtrip_prefix_witness:
  "inj_on demo_digest
      (snd ` set (accepted {} ([(''a/x'', ''1''), (''a/x'', ''9'')] @ (''a/y'', ''2'') # [])))
   \<and> fst (store_data demo_digest
          (store_calls demo_digest storage_init [(''a/x'', ''1''), (''a/x'', ''9'')])
          ''a/y'' ''2'') = Inr ()
   \<and> prefix ''a/'' ''a/y''
   \<and> (''a/y'', ''2'') \<in> set (fst (load_data
          (store_calls demo_digest storage_init
             ([(''a/x'', ''1''), (''a/x'', ''9'')] @ (''a/y'', ''2'') # [])) ''a/''))
   \<and> fst (load_data
          (store_calls demo_digest storage_init
             ([(''a/x'', ''1''), (''a/x'', ''9'')] @ (''a/y'', ''2'') # [])) ''a/'')
       = [(''a/x'', ''1''), (''a/y'', ''2'')]"
proof -
  let ?calls = "[(''a/x'', ''1''), (''a/x'', ''9'')]"
  let ?s = "store_calls demo_digest storage_init (?calls @ (''a/y'', ''2'') # [])"
  have acc: "accepted {} (?calls @ (''a/y'', ''2'') # []) = [(''a/x'', ''1''), (''a/y'', ''2'')]"
    by simp
  have inj: "inj_on demo_digest (snd ` set (accepted {} (?calls @ (''a/y'', ''2'') # [])))"
    unfolding acc by (simp add: toy_digest_def demo_digest_def)
  have ok: "fst (store_data demo_digest (store_calls demo_digest storage_init ?calls)
               ''a/y'' ''2'') = Inr ()"
    by (simp add: store_data_def store_data_steps_def storage_init_def search_name_def
        Let_def)
  have p: "prefix ''a/'' ''a/y''"
    by simp
  note rp = load_data_roundtrip_prefix [OF inj ok]
  from rp have r1: "prefix ''a/'' ''a/y'' \<longrightarrow> (''a/y'', ''2'') \<in> set (fst (load_data ?s ''a/''))"
    and r2: "load_data ?s ''a/'' =
       (filter (\<lambda>c. prefix ''a/'' (fst c)) (accepted {} (?calls @ (''a/y'', ''2'') # [])), ?s)"
    by (rule conjunct1 [THEN spec], rule conjunct2 [THEN spec])
  from r1 p have mem: "(''a/y'', ''2'') \<in> set (fst (load_data ?s ''a/''))"
    by (rule mp)
  have eq: "fst (load_data ?s ''a/'') = [(''a/x'', ''1''), (''a/y'', ''2'')]"
    unfolding r2 acc by simp
  from inj ok p mem eq show ?thesis
    by (intro conjI)
qed

lemma digest_collision: 
  assumes "\<forall>d. length (sha1 d) = 40"
  shows "\<exists>B1 B2 :: bytes. B1 \<noteq> B2 \<and> (sha1 B1 :: string) = sha1 B2"
proof -
  have "finite {xs :: string. set xs \<subseteq> UNIV \<and> length xs = 40}"
    by (rule finite_lists_length_eq) simp
  moreover have "range sha1 \<subseteq> {xs :: string. set xs \<subseteq> UNIV \<and> length xs = 40}"
    using assms by auto
  ultimately have "finite (range sha1)"
    by (rule rev_finite_subset)
  have "\<not> inj sha1"
  proof
    assume "inj sha1"
    with \<open>finite (range sha1)\<close> have "finite (UNIV :: bytes set)"
      by (rule finite_imageD)
    then show False
      by (simp add: infinite_UNIV_listI)
  qed
  then show ?thesis
    by (auto simp: inj_def)
qed

lemma collision_load:
  assumes "sha1 B1 = sha1 B2"
  shows "fst (load_data (store_calls sha1 storage_init [(''a'', B1), (''b'', B2)]) ''b'')
           = [(''b'', B1)]"
  using assms
  by (simp add: store_data_def store_data_steps_def storage_init_def search_name_def
      load_data_def Let_def)

text \<open>
  C8 fails as stated, because the blob file is named by the digest and is not rewritten
  when it exists. With a digest that maps two different byte strings to one name, the
  second \<open>store_data\<close> succeeds and \<open>load_data\<close> returns the first bytes under the second
  name. No digest with values of a fixed length (40 characters for \<open>hexdigest\<close>) is free
  of such pairs, so the round trip holds for no such digest on all data. And with a
  digest that has no such pair, a blob file that \<open>store_data\<close> did not write (nothing
  being deleted) has the same effect: its bytes are returned under the new name.
\<close>

theorem digest_collision_breaks_roundtrip:
  "fst (store_data (\<lambda>d. ''0'') (store_calls (\<lambda>d. ''0'') storage_init [(''a'', ''x1'')])
          ''b'' ''x2'') = Inr ()
   \<and> fst (load_data (store_calls (\<lambda>d. ''0'') storage_init [(''a'', ''x1''), (''b'', ''x2'')]) ''b'')
       = [(''b'', ''x1'')]
   \<and> \<not> (\<exists>sha1. (\<forall>d. length (sha1 d) = 40)
           \<and> (\<forall>B1 B2. (''b'', B2) \<in> set (fst (load_data
                 (store_calls sha1 storage_init [(''a'', B1), (''b'', B2)]) ''b''))))
   \<and> fst (store_data toy_digest
          (storage_init\<lparr>blob_directory := [toy_digest ''x2'' \<mapsto> ''x1'']\<rparr>) ''b'' ''x2'') = Inr ()
   \<and> fst (load_data (snd (store_data toy_digest
          (storage_init\<lparr>blob_directory := [toy_digest ''x2'' \<mapsto> ''x1'']\<rparr>) ''b'' ''x2'')) ''b'')
       = [(''b'', ''x1'')]"
proof -
  have four: "fst (store_data toy_digest
          (storage_init\<lparr>blob_directory := [toy_digest ''x2'' \<mapsto> ''x1'']\<rparr>) ''b'' ''x2'') = Inr ()"
    and five: "fst (load_data (snd (store_data toy_digest
          (storage_init\<lparr>blob_directory := [toy_digest ''x2'' \<mapsto> ''x1'']\<rparr>) ''b'' ''x2'')) ''b'')
       = [(''b'', ''x1'')]"
    by (simp_all add: store_data_def store_data_steps_def storage_init_def search_name_def
        load_data_def Let_def)
  have one: "fst (store_data (\<lambda>d. ''0'') (store_calls (\<lambda>d. ''0'') storage_init [(''a'', ''x1'')])
          ''b'' ''x2'') = Inr ()"
    by (simp add: store_data_def store_data_steps_def storage_init_def search_name_def Let_def)
  have two: "fst (load_data (store_calls (\<lambda>d. ''0'') storage_init [(''a'', ''x1''), (''b'', ''x2'')]) ''b'')
       = [(''b'', ''x1'')]"
    using collision_load [where ?sha1.0 = "\<lambda>d. ''0''" and ?B1.0 = "''x1''" and ?B2.0 = "''x2''"]
    by simp
  have three: "\<not> (\<exists>sha1. (\<forall>d. length (sha1 d) = 40)
           \<and> (\<forall>B1 B2. (''b'', B2) \<in> set (fst (load_data
                 (store_calls sha1 storage_init [(''a'', B1), (''b'', B2)]) ''b''))))"
  proof
    assume "\<exists>sha1. (\<forall>d. length (sha1 d) = 40)
           \<and> (\<forall>B1 B2. (''b'', B2) \<in> set (fst (load_data
                 (store_calls sha1 storage_init [(''a'', B1), (''b'', B2)]) ''b'')))"
    then obtain sha1 where len: "\<forall>d. length (sha1 d) = 40"
      and rt: "\<And>B1 B2. (''b'', B2) \<in> set (fst (load_data
                 (store_calls sha1 storage_init [(''a'', B1), (''b'', B2)]) ''b''))"
      by blast
    from digest_collision [OF len] obtain B1 B2 where ne: "B1 \<noteq> B2" and eq: "sha1 B1 = sha1 B2"
      by blast
    from rt [of B2 B1] collision_load [where ?sha1.0 = sha1 and ?B1.0 = B1 and ?B2.0 = B2] eq ne
    show False
      by simp
  qed
  from one two three four five show ?thesis
    by (intro conjI)
qed

section \<open>Discovery: handshake and monotone association\<close>

text \<open>
  C6. A node whose slots \<open>broker_pending\<close> and \<open>broker\<close> are both empty answers a
  \<open>BROKER_ANNOUNCE\<close> from \<open>X\<close> by setting \<open>broker_pending\<close> to \<open>X\<close> and emitting exactly one
  bundle, a \<open>BROKER_REQUEST\<close> from itself to \<open>X\<close> that carries its own node type. In the
  state reached, a \<open>BROKER_ACK\<close> from \<open>X\<close> sets \<open>broker\<close> to \<open>X\<close>, clears \<open>broker_pending\<close> and
  emits nothing; a \<open>BROKER_ACK\<close> from any other source changes nothing and emits nothing.
\<close>

theorem discovery_handshake:
  assumes "broker_pending n = None" and "broker n = None"
    and "type announce = BROKER_ANNOUNCE" and "source announce = X"
  shows "handle_discovery n announce =
           (n\<lparr>broker_pending := Some X\<rparr>,
            [\<lparr>type = BROKER_REQUEST, source = node_id n, destination = X,
              payload = [], success = True, error = [],
              node_type = node.node_type n, submitter = None, named_data = ND_None\<rparr>])
         \<and> (\<forall>ack. type ack = BROKER_ACK \<longrightarrow>
               handle_discovery (n\<lparr>broker_pending := Some X\<rparr>) ack =
                 (if source ack = X
                  then (n\<lparr>broker_pending := None, broker := Some X\<rparr>, [])
                  else (n\<lparr>broker_pending := Some X\<rparr>, [])))"
  using assms by (simp add: handle_discovery_def)

theorem discovery_handshake_witness:
  "handle_discovery demo_node (demo_bundle BROKER_ANNOUNCE ''dtn://b1/'') =
     (demo_node\<lparr>broker_pending := Some (EID ''dtn://b1/'')\<rparr>,
      [\<lparr>type = BROKER_REQUEST, source = EID ''dtn://exec1/'', destination = EID ''dtn://b1/'',
        payload = [], success = True, error = [],
        node_type = 2, submitter = None, named_data = ND_None\<rparr>])
   \<and> handle_discovery (demo_node\<lparr>broker_pending := Some (EID ''dtn://b1/'')\<rparr>)
        (demo_bundle BROKER_ACK ''dtn://b1/'') =
        (demo_node\<lparr>broker_pending := None, broker := Some (EID ''dtn://b1/'')\<rparr>, [])
   \<and> handle_discovery (demo_node\<lparr>broker_pending := Some (EID ''dtn://b1/'')\<rparr>)
        (demo_bundle BROKER_ACK ''dtn://b2/'') =
        (demo_node\<lparr>broker_pending := Some (EID ''dtn://b1/'')\<rparr>, [])"
proof -
  have a: "broker_pending demo_node = None" "broker demo_node = None"
    "type (demo_bundle BROKER_ANNOUNCE ''dtn://b1/'') = BROKER_ANNOUNCE"
    "source (demo_bundle BROKER_ANNOUNCE ''dtn://b1/'') = EID ''dtn://b1/''"
    by (simp_all add: demo_node_def demo_bundle_def)
  have b: "type (demo_bundle BROKER_ACK src) = BROKER_ACK"
    "source (demo_bundle BROKER_ACK src) = EID src" for src
    by (simp_all add: demo_bundle_def)
  have c: "node_id demo_node = EID ''dtn://exec1/''" "node.node_type demo_node = 2"
    by (simp_all add: demo_node_def EXECUTOR_def)
  from discovery_handshake [OF a] b c show ?thesis
    by simp
qed

lemma assoc_inv_step: "assoc_inv n \<Longrightarrow> assoc_inv (fst (handle_discovery n b))"
  by (cases "type b") (auto simp: assoc_inv_def handle_discovery_def)

lemma assoc_inv_run: "assoc_inv n \<Longrightarrow> assoc_inv (run_discovery n bs)"
  by (induction bs arbitrary: n) (simp_all add: assoc_inv_step)

lemma associated_ignores:
  assumes "assoc_inv n" and "broker n = Some X"
  shows "handle_discovery n b = (n, [])"
  using assms by (cases "type b") (auto simp: assoc_inv_def handle_discovery_def)

text \<open>
  C7. The reachable states of a node are those its handler reaches, by any sequence of
  bundles, from a state with no pending broker (\<open>Node.__init__\<close> sets \<open>_broker_pending\<close> to
  \<open>None\<close>). In every such state whose \<open>broker\<close> slot holds \<open>X\<close>, every further bundle, of any
  type and from any source, leaves the whole node state unchanged and emits no response, and
  after any number of further bundles the slot still holds \<open>X\<close>.
\<close>

theorem association_monotone:
  assumes "broker_pending n0 = None"
    and "broker (run_discovery n0 bs) = Some X"
  shows "handle_discovery (run_discovery n0 bs) b = (run_discovery n0 bs, [])
         \<and> broker (run_discovery n0 (bs @ b # later)) = Some X"
proof -
  have inv0: "assoc_inv n0"
    using assms(1) by (simp add: assoc_inv_def)
  have stay: "assoc_inv n \<Longrightarrow> broker n = Some X \<Longrightarrow> run_discovery n cs = n"
    for n :: "'a node_scheme" and cs
    by (induction cs) (simp_all add: associated_ignores)
  have app: "run_discovery n (xs @ ys) = run_discovery (run_discovery n xs) ys"
    for n :: "'a node_scheme" and xs ys
    by (induction xs arbitrary: n) simp_all
  from assoc_inv_run [OF inv0] have inv: "assoc_inv (run_discovery n0 bs)" .
  from stay [OF inv assms(2), of "b # later"] app [of n0 bs "b # later"] assms(2)
    associated_ignores [OF inv assms(2)]
  show ?thesis by simp
qed

theorem association_monotone_witness:
  "broker_pending demo_node = None
   \<and> broker (run_discovery demo_node
        [demo_bundle BROKER_ANNOUNCE ''dtn://b1/'', demo_bundle BROKER_ACK ''dtn://b1/''])
       = Some (EID ''dtn://b1/'')
   \<and> handle_discovery (run_discovery demo_node
        [demo_bundle BROKER_ANNOUNCE ''dtn://b1/'', demo_bundle BROKER_ACK ''dtn://b1/''])
        (demo_bundle BROKER_ANNOUNCE ''dtn://b2/'')
       = (run_discovery demo_node
        [demo_bundle BROKER_ANNOUNCE ''dtn://b1/'', demo_bundle BROKER_ACK ''dtn://b1/''], [])
   \<and> broker (run_discovery demo_node
        ([demo_bundle BROKER_ANNOUNCE ''dtn://b1/'', demo_bundle BROKER_ACK ''dtn://b1/'']
         @ demo_bundle BROKER_ANNOUNCE ''dtn://b2/'' # [demo_bundle BROKER_ACK ''dtn://b2/'']))
       = Some (EID ''dtn://b1/'')"
proof -
  have p: "broker_pending demo_node = None"
    by (simp add: demo_node_def)
  have b: "broker (run_discovery demo_node
        [demo_bundle BROKER_ANNOUNCE ''dtn://b1/'', demo_bundle BROKER_ACK ''dtn://b1/''])
       = Some (EID ''dtn://b1/'')"
    by (simp add: demo_node_def demo_bundle_def handle_discovery_def)
  from association_monotone [OF p b] p b show ?thesis
    by blast
qed

section \<open>Messages: \<open>dictify\<close> deletes default-valued fields\<close>

lemma del_if_default_present:
  "d k = Some v \<Longrightarrow>
   del_if_default k dflt d = Inr (if v = dflt then d(k := None) else d)"
  by (simp add: del_if_default_def getattr_def)

lemma del_if_default_absent:
  "d k = None \<Longrightarrow> class_attributes k = Some dflt \<Longrightarrow>
   del_if_default k dflt d = Inl (KeyError k)"
  by (simp add: del_if_default_def getattr_def)

lemma fresh_dictify:
  "dictify (instance_dict b) =
     (Inr (instance_dict b |` (- default_valued b)), instance_dict b |` (- default_valued b))
   \<and> serialize packb message_type (instance_dict b) =
     (Inr (packb (message_type, instance_dict b |` (- default_valued b))),
      instance_dict b |` (- default_valued b))
   \<and> dom (instance_dict b |` (- default_valued b)) =
       {''type'', ''source'', ''destination'', ''payload'', ''success'', ''error'',
        ''node_type'', ''submitter'', ''named_data''} - default_valued b"
proof -
  let ?d = "instance_dict b"
  let ?v1 = "PyBytes (payload b)"
  let ?v2 = "PyInt (bundle_data.node_type b)"
  let ?v3 = "case submitter b of None \<Rightarrow> PyNone | Some e \<Rightarrow> PyEID e"
  let ?v4 = "case named_data b of
            ND_None \<Rightarrow> PyNone | ND_Str n \<Rightarrow> PyStr n | ND_List ns \<Rightarrow> PyList ns"
  let ?d1 = "if ?v1 = PyBytes [] then ?d(''payload'' := None) else ?d"
  let ?d2 = "if ?v2 = PyInt 0 then ?d1(''node_type'' := None) else ?d1"
  let ?d3 = "if ?v3 = PyNone then ?d2(''submitter'' := None) else ?d2"
  let ?d4 = "if ?v4 = PyNone then ?d3(''named_data'' := None) else ?d3"
  have s1: "del_if_default ''payload'' (PyBytes []) ?d = Inr ?d1"
    by (rule del_if_default_present) (simp add: instance_dict_def)
  have s2: "del_if_default ''node_type'' (PyInt 0) ?d1 = Inr ?d2"
    by (rule del_if_default_present) (simp add: instance_dict_def)
  have s3: "del_if_default ''submitter'' PyNone ?d2 = Inr ?d3"
    by (rule del_if_default_present) (simp add: instance_dict_def)
  have s4: "del_if_default ''named_data'' PyNone ?d3 = Inr ?d4"
    by (rule del_if_default_present) (simp add: instance_dict_def)
  have run: "dictify ?d = (Inr ?d4, ?d4)"
    unfolding dictify_def s1 sum.case s2 s3 s4 by (rule refl)
  have e3: "(?v3 = PyNone) = (submitter b = None)"
    by (cases "submitter b") simp_all
  have e4: "(?v4 = PyNone) = (named_data b = ND_None)"
    by (cases "named_data b") simp_all
  have res: "?d4 = ?d |` (- default_valued b)"
    unfolding e3 e4
    by (rule ext) (simp add: default_valued_def restrict_map_def)
  have dm: "dom ?d = {''type'', ''source'', ''destination'', ''payload'', ''success'', ''error'',
        ''node_type'', ''submitter'', ''named_data''}"
    by (auto simp: instance_dict_def)
  have dr: "dom (?d |` (- default_valued b)) = dom ?d - default_valued b"
    by auto
  show ?thesis
    using run res dm dr by (simp add: serialize_def)
qed

lemma absent_dictify:
  assumes ne: "gone \<noteq> {}" and sub: "gone \<subseteq> optional_fields"
  shows "\<exists>k \<in> gone. fst (dictify (instance_dict b |` (- gone))) = Inl (KeyError k)"
proof -
  let ?d = "instance_dict b |` (- gone)"
  let ?v1 = "PyBytes (payload b)"
  let ?v2 = "PyInt (bundle_data.node_type b)"
  let ?v3 = "case submitter b of None \<Rightarrow> PyNone | Some e \<Rightarrow> PyEID e"
  let ?d1 = "if ?v1 = PyBytes [] then ?d(''payload'' := None) else ?d"
  let ?d2 = "if ?v2 = PyInt 0 then ?d1(''node_type'' := None) else ?d1"
  let ?d3 = "if ?v3 = PyNone then ?d2(''submitter'' := None) else ?d2"
  have ca: "class_attributes ''payload'' = Some (PyBytes [])"
    "class_attributes ''node_type'' = Some (PyInt 0)"
    "class_attributes ''submitter'' = Some PyNone"
    "class_attributes ''named_data'' = Some PyNone"
    by (simp_all add: class_attributes_def)
  show ?thesis
  proof (cases "''payload'' \<in> gone")
    case True
    then have "del_if_default ''payload'' (PyBytes []) ?d = Inl (KeyError ''payload'')"
      by (intro del_if_default_absent ca) (simp add: restrict_map_def)
    then have "fst (dictify ?d) = Inl (KeyError ''payload'')"
      by (simp add: dictify_def)
    with True show ?thesis by blast
  next
    case p: False
    then have s1: "del_if_default ''payload'' (PyBytes []) ?d = Inr ?d1"
      by (intro del_if_default_present) (simp add: restrict_map_def instance_dict_def)
    show ?thesis
    proof (cases "''node_type'' \<in> gone")
      case True
      then have "del_if_default ''node_type'' (PyInt 0) ?d1 = Inl (KeyError ''node_type'')"
        by (intro del_if_default_absent ca) (simp add: restrict_map_def)
      then have "fst (dictify ?d) = Inl (KeyError ''node_type'')"
        unfolding dictify_def s1 sum.case by simp
      with True show ?thesis by blast
    next
      case n: False
      then have s2: "del_if_default ''node_type'' (PyInt 0) ?d1 = Inr ?d2"
        by (intro del_if_default_present) (simp add: restrict_map_def instance_dict_def)
      show ?thesis
      proof (cases "''submitter'' \<in> gone")
        case True
        then have "del_if_default ''submitter'' PyNone ?d2 = Inl (KeyError ''submitter'')"
          by (intro del_if_default_absent ca) (simp add: restrict_map_def)
        then have "fst (dictify ?d) = Inl (KeyError ''submitter'')"
          unfolding dictify_def s1 s2 sum.case by simp
        with True show ?thesis by blast
      next
        case s: False
        then have s3: "del_if_default ''submitter'' PyNone ?d2 = Inr ?d3"
          by (intro del_if_default_present) (simp add: restrict_map_def instance_dict_def)
        from p n s ne sub have nd: "''named_data'' \<in> gone"
          unfolding optional_fields_def by blast
        then have "del_if_default ''named_data'' PyNone ?d3 = Inl (KeyError ''named_data'')"
          by (intro del_if_default_absent ca) (simp add: restrict_map_def)
        then have "fst (dictify ?d) = Inl (KeyError ''named_data'')"
          unfolding dictify_def s1 s2 s3 sum.case by simp
        with nd show ?thesis by blast
      qed
    qed
  qed
qed

text \<open>
  C10, as the code has it. On a bundle whose instance dictionary holds all its fields, as
  the constructor leaves it, \<open>dictify\<close> returns without raising, and the instance
  dictionary afterwards (which is also the dictionary returned) is the one before the call
  without the keys of the optional fields \<open>payload\<close>, \<open>node_type\<close>, \<open>submitter\<close>, \<open>named_data\<close>
  that hold their default value: each of those keys is deleted, every other key keeps its
  value; \<open>serialize\<close> of a message holding the bundle leaves the object in that same state.
  On a bundle from whose instance dictionary some of the four optional keys are gone,
  whatever its other fields are, \<open>dictify\<close> raises \<open>KeyError\<close> for one of the keys that are
  gone.
\<close>

theorem dictify_deletes_defaults:
  "dictify (instance_dict b) =
     (Inr (instance_dict b |` (- default_valued b)), instance_dict b |` (- default_valued b))
   \<and> serialize packb message_type (instance_dict b) =
     (Inr (packb (message_type, instance_dict b |` (- default_valued b))),
      instance_dict b |` (- default_valued b))
   \<and> dom (instance_dict b |` (- default_valued b)) =
       {''type'', ''source'', ''destination'', ''payload'', ''success'', ''error'',
        ''node_type'', ''submitter'', ''named_data''} - default_valued b
   \<and> (\<forall>gone. gone \<noteq> {} \<and> gone \<subseteq> optional_fields \<longrightarrow>
         (\<exists>k \<in> gone. fst (dictify (instance_dict b |` (- gone))) = Inl (KeyError k)))"
proof -
  have a: "\<forall>gone. gone \<noteq> {} \<and> gone \<subseteq> optional_fields \<longrightarrow>
         (\<exists>k \<in> gone. fst (dictify (instance_dict b |` (- gone))) = Inl (KeyError k))"
  proof (intro allI impI)
    fix gone :: "string set"
    assume g: "gone \<noteq> {} \<and> gone \<subseteq> optional_fields"
    from g [THEN conjunct1] g [THEN conjunct2]
    show "\<exists>k \<in> gone. fst (dictify (instance_dict b |` (- gone))) = Inl (KeyError k)"
      by (rule absent_dictify)
  qed
  from fresh_dictify [of b packb message_type] a show ?thesis
    by (simp only: conj_assoc simp_thms)
qed

text \<open>
  An instance: an announcement bundle keeps five keys, and without its \<open>payload\<close> key
  \<open>dictify\<close> raises \<open>KeyError\<close> for that key.
\<close>

theorem dictify_deletes_defaults_witness:
  "{''payload''} \<noteq> {} \<and> {''payload''} \<subseteq> optional_fields
   \<and> fst (dictify (instance_dict (demo_bundle BROKER_ANNOUNCE ''dtn://b1/'') |` (- {''payload''})))
       = Inl (KeyError ''payload'')
   \<and> snd (dictify (instance_dict (demo_bundle BROKER_ANNOUNCE ''dtn://b1/''))) =
     [''type'' \<mapsto> PyInt 1, ''source'' \<mapsto> PyEID (EID ''dtn://b1/''),
      ''destination'' \<mapsto> PyEID (EID ''dtn://rec.all/~''),
      ''success'' \<mapsto> PyBool True, ''error'' \<mapsto> PyStr []]"
proof -
  let ?b = "demo_bundle BROKER_ANNOUNCE ''dtn://b1/''"
  note t = dictify_deletes_defaults [of ?b]
  have h: "{''payload''} \<noteq> ({} :: string set)" "{''payload''} \<subseteq> optional_fields"
    by (simp_all add: optional_fields_def)
  from t have "{''payload''} \<noteq> {} \<and> {''payload''} \<subseteq> optional_fields \<longrightarrow>
      (\<exists>k \<in> {''payload''}.
         fst (dictify (instance_dict ?b |` (- {''payload''}))) = Inl (KeyError k))"
    by (rule conjunct2 [THEN conjunct2, THEN conjunct2, THEN spec])
  from this conjI [OF h]
  have "\<exists>k \<in> {''payload''}.
         fst (dictify (instance_dict ?b |` (- {''payload''}))) = Inl (KeyError k)"
    by (rule mp)
  then have r: "fst (dictify (instance_dict ?b |` (- {''payload''}))) = Inl (KeyError ''payload'')"
    by (simp only: bex_simps ball_simps Bex_def singleton_iff simp_thms)
  have dv: "default_valued ?b = {''payload'', ''node_type'', ''submitter'', ''named_data''}"
    by (auto simp: default_valued_def demo_bundle_def)
  from t have "dictify (instance_dict ?b) =
     (Inr (instance_dict ?b |` (- default_valued ?b)), instance_dict ?b |` (- default_valued ?b))"
    by (rule conjunct1)
  then have "snd (dictify (instance_dict ?b)) = instance_dict ?b |` (- default_valued ?b)"
    by simp
  also have "\<dots> = [''type'' \<mapsto> PyInt 1, ''source'' \<mapsto> PyEID (EID ''dtn://b1/''),
      ''destination'' \<mapsto> PyEID (EID ''dtn://rec.all/~''),
      ''success'' \<mapsto> PyBool True, ''error'' \<mapsto> PyStr []]"
    unfolding dv by (rule ext) (simp add: instance_dict_def demo_bundle_def restrict_map_def)
  finally have e: "snd (dictify (instance_dict ?b)) =
     [''type'' \<mapsto> PyInt 1, ''source'' \<mapsto> PyEID (EID ''dtn://b1/''),
      ''destination'' \<mapsto> PyEID (EID ''dtn://rec.all/~''),
      ''success'' \<mapsto> PyBool True, ''error'' \<mapsto> PyStr []]" .
  from h r e show ?thesis
    by (intro conjI)
qed

text \<open>
  C10 fails as stated, for a bundle that was serialized before. After one \<open>dictify\<close> the
  announcement bundle still has a default-valued \<open>payload\<close> (attribute lookup falls back to
  the class attribute, the empty bytes object), and a second \<open>dictify\<close> raises \<open>KeyError\<close> and leaves the
  instance dictionary as it was: it returns nothing and deletes nothing.
\<close>

theorem second_dictify_raises:
  "getattr (snd (dictify (instance_dict (demo_bundle BROKER_ANNOUNCE ''dtn://b1/''))))
      ''payload'' = Inr (PyBytes [])
   \<and> dictify (snd (dictify (instance_dict (demo_bundle BROKER_ANNOUNCE ''dtn://b1/'')))) =
       (Inl (KeyError ''payload''),
        snd (dictify (instance_dict (demo_bundle BROKER_ANNOUNCE ''dtn://b1/''))))"
  by (simp add: dictify_def del_if_default_def getattr_def class_attributes_def
      instance_dict_def demo_bundle_def)

section \<open>Executor: the scheduler's pop\<close>









section \<open>Executor: redelivered named data\<close>

lemma store_data_taken:
  "n \<in> stored_names s \<Longrightarrow> store_data sha1 s n d = (Inl (NameTakenError n), s)"
  using search_name_empty_iff [of s n]
  by (simp add: store_data_def store_data_steps_def Let_def)

lemma store_data_fresh:
  assumes "n \<notin> stored_names s"
  shows "\<exists>s'. store_data sha1 s n d = (Inr (), s')
            \<and> stored_names s' = insert n (stored_names s)"
  using assms search_name_empty_iff [of s n]
  by (auto simp: store_data_def store_data_steps_def Let_def stored_names_def)

lemma store_each_taken:
  "n \<in> fst ` set items \<Longrightarrow> n \<in> stored_names s \<Longrightarrow>
   \<exists>m st. store_each sha1 s items = (Inl (NameTakenError m), st)"
proof (induction items arbitrary: s)
  case Nil
  then show ?case by simp
next
  case (Cons item items)
  show ?case
  proof (cases "fst item \<in> stored_names s")
    case True
    from store_data_taken [OF True, of sha1 "snd item"] show ?thesis
      by simp
  next
    case False
    from store_data_fresh [OF False, of sha1 "snd item"]
    obtain s' where s': "store_data sha1 s (fst item) (snd item) = (Inr (), s')"
      and names: "stored_names s' = insert (fst item) (stored_names s)"
      by blast
    from Cons.prems False have "n \<in> fst ` set items"
      by auto
    moreover from Cons.prems(2) names have "n \<in> stored_names s'"
      by simp
    ultimately obtain m st where "store_each sha1 s' items = (Inl (NameTakenError m), st)"
      using Cons.IH by blast
    with s' show ?thesis
      by simp
  qed
qed

text \<open>
  C3 does not hold of the code. When a name carried by an inbound \<open>NDATA_GET\<close> bundle is
  already in the executor's storage, \<open>store_data\<close> raises \<open>NameTakenError\<close> and nothing in
  \<open>_handle_data\<close> catches it: the handler ends with that error, and the executor afterwards
  differs from the one before at most in its storage (names of the bundle stored before
  the error), so \<open>notify_all\<close> was not called. For a bundle carrying the one name, nothing
  at all has changed.
\<close>

theorem redelivered_data_raises:
  assumes "n \<in> stored_names (storage self)"
    and "named_data bundle = ND_Str n \<or> (\<exists>ns. named_data bundle = ND_List ns \<and> n \<in> set ns)"
  shows "(\<exists>m st. handle_data sha1 self bundle =
            (Inl (Storage (NameTakenError m)), self\<lparr>storage := st\<rparr>))
         \<and> (named_data bundle = ND_Str n \<longrightarrow>
              handle_data sha1 self bundle = (Inl (Storage (NameTakenError n)), self))"
proof -
  have single: "handle_data sha1 self bundle = (Inl (Storage (NameTakenError n)), self)"
    if "named_data bundle = ND_Str n"
    using that store_data_taken [OF assms(1), of sha1 "payload bundle"]
    by (simp add: handle_data_def)
  have "\<exists>m st. handle_data sha1 self bundle =
            (Inl (Storage (NameTakenError m)), self\<lparr>storage := st\<rparr>)"
  proof (cases "named_data bundle = ND_Str n")
    case True
    from single [OF True] have "handle_data sha1 self bundle =
        (Inl (Storage (NameTakenError n)), self\<lparr>storage := storage self\<rparr>)"
      by simp
    then show ?thesis by blast
  next
    case False
    with assms(2) obtain ns where ns: "named_data bundle = ND_List ns" and mem: "n \<in> set ns"
      by blast
    from mem have "n \<in> fst ` set (map (\<lambda>n. (n, payload bundle)) ns)"
      by force
    from store_each_taken [OF this assms(1), of sha1]
    obtain m st where "store_each sha1 (storage self) (map (\<lambda>n. (n, payload bundle)) ns) =
        (Inl (NameTakenError m), st)"
      by blast
    with ns have "handle_data sha1 self bundle =
        (Inl (Storage (NameTakenError m)), self\<lparr>storage := st\<rparr>)"
      by (simp add: handle_data_def)
    then show ?thesis by blast
  qed
  with single show ?thesis by blast
qed

text \<open>
  The error passes through \<open>_handle_bundle\<close> and ends the batch in \<open>_handle_bundles\<close>: the
  bundles fetched after the redelivered one are not handled.
\<close>

lemma raising_handler_ends_batch:
  assumes "type bundle = NDATA_GET" and "handle_data sha1 self bundle = (Inl e, self')"
  shows "handle_bundle sha1 unpackb to_list self bundle = (Inl e, self')"
    and "handle_bundles sha1 unpackb to_list self (bundle # rest) = (Some e, self')"
  using assms by (simp_all add: handle_bundle_def)

text \<open>
  An instance: the first delivery of \<open>in\<close> is stored and signalled, the second raises.
\<close>

theorem redelivered_data_raises_witness:
  "''in'' \<in> stored_names (storage (snd (handle_data toy_digest demo_executor
        (deliver ''in'' ''input bytes''))))
   \<and> named_data (deliver ''in'' ''input bytes'') = ND_Str ''in''
   \<and> fst (handle_data toy_digest demo_executor (deliver ''in'' ''input bytes'')) = Inr ()
   \<and> job_ready_cv (snd (handle_data toy_digest demo_executor
        (deliver ''in'' ''input bytes''))) = 1
   \<and> handle_data toy_digest
        (snd (handle_data toy_digest demo_executor (deliver ''in'' ''input bytes'')))
        (deliver ''in'' ''input bytes'') =
       (Inl (Storage (NameTakenError ''in'')),
        snd (handle_data toy_digest demo_executor (deliver ''in'' ''input bytes'')))"
proof -
  define e1 where "e1 = snd (handle_data toy_digest demo_executor (deliver ''in'' ''input bytes''))"
  have nd: "named_data (deliver ''in'' ''input bytes'') = ND_Str ''in''"
    "payload (deliver ''in'' ''input bytes'') = ''input bytes''"
    by (simp_all add: deliver_def demo_bundle_def)
  have s0: "storage demo_executor = storage_init" "job_ready_cv demo_executor = 0"
    by (simp_all add: demo_executor_def node.defs executor.defs demo_node_def)
  have st: "store_data toy_digest storage_init ''in'' ''input bytes'' =
      (Inr (), \<lparr>db = [(''in'', toy_digest ''input bytes'')],
                blob_directory = [toy_digest ''input bytes'' \<mapsto> ''input bytes'']\<rparr>)"
    by (simp add: store_data_def store_data_steps_def storage_init_def search_name_def Let_def)
  have first: "handle_data toy_digest demo_executor (deliver ''in'' ''input bytes'') =
      (Inr (), demo_executor\<lparr>storage := \<lparr>db = [(''in'', toy_digest ''input bytes'')],
                  blob_directory = [toy_digest ''input bytes'' \<mapsto> ''input bytes'']\<rparr>,
                job_ready_cv := 1\<rparr>)"
    by (simp add: handle_data_def nd s0 st)
  have ok: "fst (handle_data toy_digest demo_executor (deliver ''in'' ''input bytes'')) = Inr ()"
    and cv: "job_ready_cv e1 = 1"
    and taken: "''in'' \<in> stored_names (storage e1)"
    unfolding e1_def first by (simp_all add: stored_names_def)
  from redelivered_data_raises [OF taken disjI1 [OF nd(1)], of toy_digest]
  have "named_data (deliver ''in'' ''input bytes'') = ND_Str ''in'' \<longrightarrow>
      handle_data toy_digest e1 (deliver ''in'' ''input bytes'') =
        (Inl (Storage (NameTakenError ''in'')), e1)"
    by (rule conjunct2)
  from this nd(1) have "handle_data toy_digest e1 (deliver ''in'' ''input bytes'') =
        (Inl (Storage (NameTakenError ''in'')), e1)"
    by (rule mp)
  with taken nd(1) ok cv show ?thesis
    unfolding e1_def by (intro conjI)
qed

section \<open>Executor: paths that escape the data directory\<close>
























end
